theory Spec2Isabelle
  imports Complex_Main
begin

section \<open>Numeric arrays and the primitives of the numeric libraries\<close>

text \<open>
  Floating-point numbers are idealised as reals. A feature matrix is a list of rows, an
  index array a list of numbers. Python exceptions are values of \<open>error\<close>.
\<close>

datatype error = ValueError | IndexError | TypeError | AttributeError | NotImplementedError

type_synonym row = "real list"
type_synonym matrix = "row list"

text \<open>
  One-dimensional float arrays that a caller and a callee may share live in a heap, a list
  of arrays addressed by position. Allocation appends, so the fresh address is the length
  of the heap.
\<close>

type_synonym addr = nat
type_synonym heap = "real list list"

definition array_copy :: "heap \<Rightarrow> addr \<Rightarrow> addr \<times> heap" where
  \<comment> \<open>\<open>a.copy()\<close>: a new array with the same contents.\<close>
  "array_copy h a = (length h, h @ [h ! a])"

definition array_set :: "heap \<Rightarrow> addr \<Rightarrow> nat \<Rightarrow> real \<Rightarrow> heap" where
  \<comment> \<open>\<open>a[i] = v\<close>, in place.\<close>
  "array_set h a i v = h[a := (h ! a)[i := v]]"

definition masked :: "bool list \<Rightarrow> 'a list \<Rightarrow> 'a list" where
  \<comment> \<open>\<open>xs[msk]\<close> for a boolean array of the length of \<open>xs\<close>.\<close>
  "masked msk xs = map snd (filter fst (zip msk xs))"

definition logical_not :: "bool list \<Rightarrow> bool list" where
  "logical_not msk = map Not msk"

definition euclidean :: "row \<Rightarrow> row \<Rightarrow> real" where
  "euclidean a b = sqrt (\<Sum>(x, y) \<leftarrow> zip a b. (x - y)\<^sup>2)"

definition n_features :: "matrix \<Rightarrow> nat" where
  \<comment> \<open>\<open>A.shape[1]\<close>: the rows of a matrix all have the length of the first.\<close>
  "n_features A = (case A of [] \<Rightarrow> 0 | r # rs \<Rightarrow> length r)"

definition pairwise_distances_argmin_min ::
  "(row \<Rightarrow> row \<Rightarrow> real) \<Rightarrow> matrix \<Rightarrow> matrix \<Rightarrow> error + real list" where
  \<comment> \<open>The distance of each row of \<open>A\<close> to its nearest row of \<open>B\<close> (the second component of
      the library's result; the first, the argmin, is discarded by the caller). The
      library first validates both arrays and raises \<open>ValueError\<close> for one with no row or
      with no column, and for two arrays of different widths. It also rejects entries
      that are not finite numbers; the entries here are reals, so that check has no
      counterpart.\<close>
  "pairwise_distances_argmin_min m A B =
     (if length A < 1 \<or> n_features A < 1 \<or> length B < 1 \<or> n_features B < 1
         \<or> n_features A \<noteq> n_features B
      then Inl ValueError
      else Inr (map (\<lambda>a. min_list (map (m a) B)) A))"

definition pairwise_distances_to :: "(row \<Rightarrow> row \<Rightarrow> real) \<Rightarrow> matrix \<Rightarrow> row \<Rightarrow> real list" where
  \<comment> \<open>\<open>pairwise_distances(A, b[None])[:, 0]\<close>: the distance of each row of \<open>A\<close> to \<open>b\<close>. The
      library validates its arguments as above; here they are rows of the matrix that
      passed that validation at line 59.\<close>
  "pairwise_distances_to m A b = map (\<lambda>a. m a b) A"

fun argmax_from :: "real list \<Rightarrow> nat \<Rightarrow> nat \<Rightarrow> real \<Rightarrow> nat" where
  "argmax_from [] i best v = best"
| "argmax_from (x # xs) i best v =
     (if v < x then argmax_from xs (Suc i) i x else argmax_from xs (Suc i) best v)"

definition argmax :: "real list \<Rightarrow> error + nat" where
  \<comment> \<open>\<open>np.argmax\<close>: the first position of the maximum; an empty array raises.\<close>
  "argmax xs = (case xs of [] \<Rightarrow> Inl ValueError | x # rest \<Rightarrow> Inr (argmax_from rest 1 0 x))"

section \<open>cardinal/base.py: BaseQuerySampler\<close>

record base_query_sampler =
  batch_size :: int

section \<open>cardinal/batch.py: RankedBatchSampler\<close>

record ranked_batch_sampler = base_query_sampler +
  metric :: "row \<Rightarrow> row \<Rightarrow> real"
  verbose :: int

text \<open>The local variables of one call of \<open>select_samples\<close>.\<close>

record frame =
  n_samples :: nat
  index :: "nat list"
  unlabeled_mask :: "bool list"
  n_unlabeled :: int
  samples_weights :: addr
  similarity_scores :: "real list"
  selected_samples :: "nat list"

definition init_frame :: "ranked_batch_sampler \<Rightarrow> heap \<Rightarrow> matrix \<Rightarrow> addr \<Rightarrow> (error + frame) \<times> heap" where
  \<comment> \<open>Lines 49 to 64. The local name \<open>samples_weights\<close> is rebound to the copy. Indexing
      \<open>X\<close> by a boolean array of another length raises \<open>IndexError\<close>.\<close>
  "init_frame self h X w =
     (let msk = map (\<lambda>v. - 0.5 < v) (h ! w);
          (c, h1) = array_copy h w
      in if length msk \<noteq> length X then (Inl IndexError, h1)
         else case pairwise_distances_argmin_min (metric self)
                     (masked msk X) (masked (logical_not msk) X) of
                Inl e \<Rightarrow> (Inl e, h1)
              | Inr d \<Rightarrow>
                  (Inr \<lparr> n_samples = length X,
                         index = [0..<length X],
                         unlabeled_mask = msk,
                         n_unlabeled = int (length (filter id msk)),
                         samples_weights = c,
                         similarity_scores = map (\<lambda>v. 1 / (1 + v)) d,
                         selected_samples = [] \<rparr>, h1))"

definition alpha_of :: "frame \<Rightarrow> real" where
  \<comment> \<open>Line 68.\<close>
  "alpha_of f = real_of_int (n_unlabeled f) / real (n_samples f)"

definition scores_of :: "frame \<Rightarrow> heap \<Rightarrow> real list" where
  \<comment> \<open>Lines 69 and 70.\<close>
  "scores_of f h =
     map2 (\<lambda>s w. alpha_of f * (1 - s) + (1 - alpha_of f) * w)
       (similarity_scores f) (masked (unlabeled_mask f) (h ! samples_weights f))"

definition loop_body ::
  "ranked_batch_sampler \<Rightarrow> matrix \<Rightarrow> frame \<times> heap \<Rightarrow> error + frame \<times> heap" where
  \<comment> \<open>Lines 68 to 82: one pick.\<close>
  "loop_body self X fh =
     (case fh of (f, h) \<Rightarrow>
        (case argmax (scores_of f h) of
           Inl e \<Rightarrow> Inl e
         | Inr a \<Rightarrow>
             (let idx_furthest = masked (unlabeled_mask f) (index f) ! a;
                  sim = map (\<lambda>d. 1 / (1 + d))
                          (pairwise_distances_to (metric self)
                             (masked (unlabeled_mask f) X) (X ! idx_furthest))
              in Inr (f \<lparr> similarity_scores := map2 max (similarity_scores f) sim,
                         n_unlabeled := n_unlabeled f - 1,
                         selected_samples := selected_samples f @ [idx_furthest] \<rparr>,
                      array_set h (samples_weights f) idx_furthest 0))))"

fun loop ::
  "ranked_batch_sampler \<Rightarrow> matrix \<Rightarrow> nat \<Rightarrow> frame \<times> heap \<Rightarrow> (error + frame) \<times> heap" where
  \<comment> \<open>\<open>for _ in range(k)\<close> over the body; an exception leaves the heap as it is then.\<close>
  "loop self X 0 fh = (Inr (fst fh), snd fh)"
| "loop self X (Suc k) fh =
     (case loop_body self X fh of
        Inl e \<Rightarrow> (Inl e, snd fh)
      | Inr fh' \<Rightarrow> loop self X k fh')"

definition select_samples ::
  "ranked_batch_sampler \<Rightarrow> heap \<Rightarrow> matrix \<Rightarrow> addr \<Rightarrow> (error + nat list) \<times> heap" where
  \<comment> \<open>\<open>RankedBatchSampler.select_samples(X, samples_weights)\<close>, the weights passed by
      reference; \<open>range\<close> of a negative number is empty.\<close>
  "select_samples self h X w =
     (case init_frame self h X w of
        (Inl e, h1) \<Rightarrow> (Inl e, h1)
      | (Inr f0, h1) \<Rightarrow>
          (case loop self X (nat (batch_size self)) (f0, h1) of
             (Inl e, h2) \<Rightarrow> (Inl e, h2)
           | (Inr f, h2) \<Rightarrow> (Inr (selected_samples f), h2)))"

section \<open>cardinal/base.py: ScoredQuerySampler\<close>

definition slice_from :: "int \<Rightarrow> 'a list \<Rightarrow> 'a list" where
  \<comment> \<open>\<open>xs[s:]\<close>: a negative start counts from the end, and either is clipped.\<close>
  "slice_from s xs =
     (if s < 0 then drop (nat (int (length xs) + s)) xs else drop (nat s) xs)"

record 'g scored_query_sampler = base_query_sampler +
  strategy :: string
  random_state :: 'g
  sample_scores_attr :: "real list option"

definition base_score_samples :: "matrix \<Rightarrow> error + real list" where
  \<comment> \<open>The base class gives no scoring.\<close>
  "base_score_samples X = Inl NotImplementedError"

text \<open>
  The field \<open>sample_scores_attr\<close> is the attribute \<open>sample_scores_\<close>, unset (\<open>None\<close>) until
  the first selection. The scoring method \<open>score_samples\<close> is supplied by the subclass, and
  \<open>np.argsort\<close> and the generator's \<open>choice(a, size, replace=False, p)\<close> by the numeric
  library: all three are parameters. \<open>np.argsort\<close> is called with its default kind, which
  is not a stable sort: it returns the positions in ascending order of their values and
  promises no order among positions of equal values. A raised exception leaves the
  object as it is at that moment.
\<close>

definition scored_select_samples ::
  "(matrix \<Rightarrow> error + real list) \<Rightarrow>
   (real list \<Rightarrow> nat list) \<Rightarrow>
   ('g \<Rightarrow> nat list \<Rightarrow> int \<Rightarrow> real list \<Rightarrow> (error + nat list) \<times> 'g) \<Rightarrow>
   'g scored_query_sampler \<Rightarrow> matrix \<Rightarrow> (error + nat list) \<times> 'g scored_query_sampler" where
  "scored_select_samples score_samples argsort choice self X =
     (case score_samples X of
        Inl e \<Rightarrow> (Inl e, self)
      | Inr sample_scores \<Rightarrow>
          (let self1 = self \<lparr> sample_scores_attr := Some sample_scores \<rparr> in
           if strategy self1 = ''top'' then
             (Inr (slice_from (- batch_size self1) (argsort sample_scores)), self1)
           else if strategy self1 = ''linear_choice'' then
             (case choice (random_state self1) [0..<length X] (batch_size self1)
                     (map (\<lambda>s. s / sum_list sample_scores) sample_scores) of
                (r, g) \<Rightarrow> (r, self1 \<lparr> random_state := g \<rparr>))
           else if strategy self1 = ''squared_choice'' then
             (let squared = map (\<lambda>s. s\<^sup>2) sample_scores in
              case choice (random_state self1) [0..<length X] (batch_size self1)
                     (map (\<lambda>s. s / sum_list squared) squared) of
                (r, g) \<Rightarrow> (r, self1 \<lparr> random_state := g \<rparr>))
           else (Inl ValueError, self1)))"

section \<open>Sampler objects\<close>

text \<open>
  A sampler held by a composite is an object with its methods: the methods take the
  object's state and return the outcome and the new state. \<open>fit\<close> takes the optional
  labels. The base class declares \<open>fit\<close> and \<open>select_samples\<close> but no \<open>predict\<close>: a sampler
  may lack that attribute, and looking it up then raises \<open>AttributeError\<close>.
\<close>

record 's sampler =
  obj :: 's
  fit_method :: "'s \<Rightarrow> matrix \<Rightarrow> int list option \<Rightarrow> (error + unit) \<times> 's"
  select_samples_method :: "'s \<Rightarrow> matrix \<Rightarrow> (error + int list) \<times> 's"
  predict_method :: "('s \<Rightarrow> matrix \<Rightarrow> (error + int list) \<times> 's) option"

definition call_fit ::
  "'s sampler \<Rightarrow> matrix \<Rightarrow> int list option \<Rightarrow> (error + unit) \<times> 's sampler" where
  "call_fit s X y = (case fit_method s (obj s) X y of (r, st) \<Rightarrow> (r, s \<lparr> obj := st \<rparr>))"

definition call_select_samples ::
  "'s sampler \<Rightarrow> matrix \<Rightarrow> (error + int list) \<times> 's sampler" where
  "call_select_samples s X =
     (case select_samples_method s (obj s) X of (r, st) \<Rightarrow> (r, s \<lparr> obj := st \<rparr>))"

definition call_bound ::
  "('s \<Rightarrow> matrix \<Rightarrow> (error + int list) \<times> 's) \<Rightarrow> 's sampler \<Rightarrow> matrix \<Rightarrow>
   (error + int list) \<times> 's sampler" where
  \<comment> \<open>The call of a method that was looked up on the object.\<close>
  "call_bound method s X = (case method (obj s) X of (r, st) \<Rightarrow> (r, s \<lparr> obj := st \<rparr>))"

definition fancy_index :: "'a list \<Rightarrow> int list \<Rightarrow> error + 'a list" where
  \<comment> \<open>\<open>xs[idx]\<close> for an integer index array: a negative index counts from the end, one out
      of range raises.\<close>
  "fancy_index xs idx =
     (if list_all (\<lambda>i. - int (length xs) \<le> i \<and> i < int (length xs)) idx
      then Inr (map (\<lambda>i. xs ! nat (if i < 0 then int (length xs) + i else i)) idx)
      else Inl IndexError)"

section \<open>cardinal/base.py: ChainQuerySampler\<close>

record 's chain_query_sampler =
  sampler_list :: "'s sampler list"

definition chain_fit ::
  "'s chain_query_sampler \<Rightarrow> matrix \<Rightarrow> int list option \<Rightarrow>
   (error + unit) \<times> 's chain_query_sampler" where
  "chain_fit self X y =
     (case sampler_list self of
        [] \<Rightarrow> (Inl IndexError, self)
      | first # rest \<Rightarrow>
          (case call_fit first X y of (r, s) \<Rightarrow> (r, self \<lparr> sampler_list := s # rest \<rparr>)))"

fun chain_loop ::
  "'s sampler list \<Rightarrow> matrix \<Rightarrow> int list \<Rightarrow> (error + int list) \<times> 's sampler list" where
  \<comment> \<open>Lines 139 to 142, over \<open>sampler_list[1:]\<close>. In \<open>sampler.predict(X[selected])\<close> the
      attribute is looked up before the argument is evaluated.\<close>
  "chain_loop [] X selected = (Inr selected, [])"
| "chain_loop (sampler # rest) X selected =
     (case call_fit sampler X None of
        (Inl e, s1) \<Rightarrow> (Inl e, s1 # rest)
      | (Inr u, s1) \<Rightarrow>
          (case predict_method s1 of
             None \<Rightarrow> (Inl AttributeError, s1 # rest)
           | Some predict \<Rightarrow>
               (case fancy_index X selected of
                  Inl e \<Rightarrow> (Inl e, s1 # rest)
                | Inr X_selected \<Rightarrow>
                    (case call_bound predict s1 X_selected of
                       (Inl e, s2) \<Rightarrow> (Inl e, s2 # rest)
                     | (Inr new_selected, s2) \<Rightarrow>
                         (case fancy_index selected new_selected of
                            Inl e \<Rightarrow> (Inl e, s2 # rest)
                          | Inr selected' \<Rightarrow>
                              (case chain_loop rest X selected' of
                                 (r, rest') \<Rightarrow> (r, s2 # rest')))))))"

definition chain_select_samples ::
  "'s chain_query_sampler \<Rightarrow> matrix \<Rightarrow> (error + int list) \<times> 's chain_query_sampler" where
  "chain_select_samples self X =
     (case sampler_list self of
        [] \<Rightarrow> (Inl IndexError, self)
      | first # rest \<Rightarrow>
          (case call_select_samples first X of
             (Inl e, s0) \<Rightarrow> (Inl e, self \<lparr> sampler_list := s0 # rest \<rparr>)
           | (Inr selected, s0) \<Rightarrow>
               (case chain_loop rest X selected of
                  (r, rest') \<Rightarrow> (r, self \<lparr> sampler_list := s0 # rest' \<rparr>))))"

section \<open>plot_digits_metrics.py: AdaptiveQuerySampler\<close>

record ('a, 'b) adaptive_query_sampler =
  exploration_sampler :: "'a sampler"
  exploitation_sampler :: "'b sampler"
  X_train_size :: "nat option"

definition adaptive_fit ::
  "('a, 'b) adaptive_query_sampler \<Rightarrow> matrix \<Rightarrow> int list \<Rightarrow>
   (error + unit) \<times> ('a, 'b) adaptive_query_sampler" where
  "adaptive_fit self X_train y_train =
     (let self1 = self \<lparr> X_train_size := Some (length X_train) \<rparr> in
      case call_fit (exploration_sampler self1) X_train (Some y_train) of
        (Inl e, s) \<Rightarrow> (Inl e, self1 \<lparr> exploration_sampler := s \<rparr>)
      | (Inr u, s) \<Rightarrow>
          (let self2 = self1 \<lparr> exploration_sampler := s \<rparr> in
           case call_fit (exploitation_sampler self2) X_train (Some y_train) of
             (r, t) \<Rightarrow> (r, self2 \<lparr> exploitation_sampler := t \<rparr>)))"

definition adaptive_select_samples ::
  "('a, 'b) adaptive_query_sampler \<Rightarrow> matrix \<Rightarrow>
   (error + int list) \<times> ('a, 'b) adaptive_query_sampler" where
  \<comment> \<open>Comparing \<open>None\<close> with a number raises \<open>TypeError\<close>.\<close>
  "adaptive_select_samples self X =
     (case X_train_size self of
        None \<Rightarrow> (Inl TypeError, self)
      | Some n \<Rightarrow>
          if n \<le> 50 then
            (case call_select_samples (exploration_sampler self) X of
               (r, s) \<Rightarrow> (r, self \<lparr> exploration_sampler := s \<rparr>))
          else
            (case call_select_samples (exploitation_sampler self) X of
               (r, s) \<Rightarrow> (r, self \<lparr> exploitation_sampler := s \<rparr>)))"

section \<open>Vocabulary of the properties\<close>

definition frame_ok :: "matrix \<Rightarrow> frame \<Rightarrow> heap \<Rightarrow> bool" where
  "frame_ok X f h \<longleftrightarrow>
     n_samples f = length X \<and> index f = [0..<length X] \<and>
     length (unlabeled_mask f) = length X \<and>
     samples_weights f < length h \<and>
     length (h ! samples_weights f) = length X \<and>
     length (similarity_scores f) = length (filter id (unlabeled_mask f)) \<and>
     filter id (unlabeled_mask f) \<noteq> []"

definition count_eligible :: "real list \<Rightarrow> nat" where
  "count_eligible w = length (filter (\<lambda>v. - 0.5 < v) w)"

definition reference_points :: "matrix \<Rightarrow> real list \<Rightarrow> nat list \<Rightarrow> row set" where
  "reference_points X w sel =
     set (masked (map (\<lambda>v. \<not> - 0.5 < v) w) X) \<union> (\<lambda>i. X ! i) ` set sel"

definition nearest_similarity :: "(row \<Rightarrow> row \<Rightarrow> real) \<Rightarrow> row set \<Rightarrow> row \<Rightarrow> real" where
  "nearest_similarity m R x = 1 / (1 + Min (m x ` R))"

text \<open>The sampler of the scenarios: the Euclidean metric, a given batch size.\<close>

definition euclidean_sampler :: "int \<Rightarrow> ranked_batch_sampler" where
  "euclidean_sampler b = \<lparr> batch_size = b, metric = euclidean, verbose = 0 \<rparr>"

text \<open>
  Stand-ins for the scenarios: an argsort, a scoring by row sums and a constant one, a generator whose
  \<open>choice\<close> takes the first entries, a scored sampler with a given strategy, a sampler
  object that records the matrix it was last fitted on and returns fixed index arrays,
  a chain and an adaptive sampler of such objects.
\<close>

definition stable_argsort :: "real list \<Rightarrow> nat list" where
  \<comment> \<open>One ordering \<open>np.argsort\<close> may return: equal values in the order of their positions.\<close>
  "stable_argsort xs = sort_key (\<lambda>i. xs ! i) [0..<length xs]"

definition row_sum_score :: "matrix \<Rightarrow> error + real list" where
  "row_sum_score X = Inr (map sum_list X)"

definition first_choice :: "unit \<Rightarrow> nat list \<Rightarrow> int \<Rightarrow> real list \<Rightarrow> (error + nat list) \<times> unit" where
  "first_choice g a n p = (Inr (take (nat n) a), g)"

definition constant_score :: "real list \<Rightarrow> matrix \<Rightarrow> error + real list" where
  "constant_score sc X = Inr sc"

definition scored_example :: "string \<Rightarrow> int \<Rightarrow> unit scored_query_sampler" where
  "scored_example s b =
     \<lparr> batch_size = b, strategy = s, random_state = (), sample_scores_attr = None \<rparr>"

definition recording_sampler :: "int list \<Rightarrow> int list \<Rightarrow> matrix sampler" where
  "recording_sampler sel pred =
     \<lparr> obj = [],
       fit_method = (\<lambda>st X y. (Inr (), X)),
       select_samples_method = (\<lambda>st X. (Inr sel, st)),
       predict_method = Some (\<lambda>st X. (Inr pred, st)) \<rparr>"

definition example_chain :: "matrix chain_query_sampler" where
  "example_chain =
     \<lparr> sampler_list = [recording_sampler [2, 0, 3] [], recording_sampler [] [1]] \<rparr>"

definition example_adaptive :: "(matrix, matrix) adaptive_query_sampler" where
  "example_adaptive =
     \<lparr> exploration_sampler = recording_sampler [0] [],
       exploitation_sampler = recording_sampler [1] [],
       X_train_size = None \<rparr>"

section \<open>Arrays and masks\<close>

lemma masked_Cons: "masked (b # bs) (x # xs) = (if b then x # masked bs xs else masked bs xs)"
  by (simp add: masked_def)

lemma masked_Nil: "masked [] xs = []" "masked bs [] = []"
  by (simp_all add: masked_def)

lemma length_masked:
  "length bs = length xs \<Longrightarrow> length (masked bs xs) = length (filter id bs)"
  by (induction bs xs rule: list_induct2) (simp_all add: masked_Nil masked_Cons)

lemma masked_snoc:
  "length bs = length xs \<Longrightarrow>
   masked (bs @ [b]) (xs @ [x]) = masked bs xs @ (if b then [x] else [])"
  by (simp add: masked_def)

lemma masked_upt:
  "length bs = n \<Longrightarrow> masked bs [0..<n] = filter (\<lambda>i. bs ! i) [0..<n]"
proof (induction bs arbitrary: n rule: rev_induct)
  case Nil
  then show ?case by (simp add: masked_Nil)
next
  case (snoc b bs)
  then obtain k where n: "n = Suc k" and k: "length bs = k" by (cases n) auto
  have "filter (\<lambda>i. (bs @ [b]) ! i) [0..<k] = filter (\<lambda>i. bs ! i) [0..<k]"
    using k by (intro filter_cong) (auto simp: nth_append)
  with snoc.IH [OF k] k n show ?case
    by (simp add: masked_snoc nth_append)
qed

lemma set_masked_upt:
  "length bs = n \<Longrightarrow> set (masked bs [0..<n]) = {i. i < n \<and> bs ! i}"
  by (auto simp: masked_upt)

section \<open>RankedBatchSampler: the loop runs and keeps its frame well formed\<close>

lemma argmax_from_bound:
  "best < i \<Longrightarrow> argmax_from xs i best v < i + length xs"
  by (induction xs i best v rule: argmax_from.induct) auto

lemma argmax_ok: "xs \<noteq> [] \<Longrightarrow> \<exists>a. argmax xs = Inr a \<and> a < length xs"
  using argmax_from_bound [of 0 1]
  by (cases xs) (auto simp: argmax_def)

lemma length_scores_of:
  "frame_ok X f h \<Longrightarrow> length (scores_of f h) = length (filter id (unlabeled_mask f))"
  by (simp add: frame_ok_def scores_of_def length_masked)

lemma loop_body_ok:
  assumes "frame_ok X f h"
  shows "\<exists>i. i < length X \<and> unlabeled_mask f ! i \<and>
           loop_body self X (f, h) =
             Inr (f \<lparr> similarity_scores :=
                         map2 max (similarity_scores f)
                           (map (\<lambda>x. 1 / (1 + metric self x (X ! i)))
                              (masked (unlabeled_mask f) X)),
                      n_unlabeled := n_unlabeled f - 1,
                      selected_samples := selected_samples f @ [i] \<rparr>,
                  array_set h (samples_weights f) i 0)"
proof -
  from assms have "scores_of f h \<noteq> []"
    using length_scores_of [OF assms] by (auto simp: frame_ok_def)
  then obtain a where a: "argmax (scores_of f h) = Inr a" "a < length (scores_of f h)"
    using argmax_ok by blast
  let ?ix = "masked (unlabeled_mask f) [0..<length X]"
  have len: "length ?ix = length (filter id (unlabeled_mask f))"
    using assms by (simp add: frame_ok_def length_masked)
  with a length_scores_of [OF assms] have "?ix ! a \<in> set ?ix" by simp
  then have "?ix ! a < length X \<and> unlabeled_mask f ! (?ix ! a)"
    using assms by (simp add: frame_ok_def set_masked_upt)
  moreover have "index f = [0..<length X]" using assms by (simp add: frame_ok_def)
  ultimately show ?thesis
    using a by (intro exI [of _ "?ix ! a"])
      (simp add: loop_body_def pairwise_distances_to_def Let_def comp_def)
qed

lemma array_set_same: "a < length h \<Longrightarrow> array_set h a i v ! a = (h ! a)[i := v]"
  by (simp add: array_set_def)

lemma length_array_set: "length (array_set h a i v) = length h"
  by (simp add: array_set_def)

lemma take_array_set: "n \<le> a \<Longrightarrow> take n (array_set h a i v) = take n h"
  by (simp add: array_set_def)

lemma frame_ok_step:
  assumes "frame_ok X f h" and "i < length X"
  shows "frame_ok X
           (f \<lparr> similarity_scores :=
                   map2 max (similarity_scores f)
                     (map g (masked (unlabeled_mask f) X)),
                n_unlabeled := u, selected_samples := s \<rparr>)
           (array_set h (samples_weights f) i 0)"
  using assms
  by (simp add: frame_ok_def length_array_set array_set_same length_masked)

lemma loop_ok:
  assumes "frame_ok X f h"
  shows "\<exists>f' h'. loop self X k (f, h) = (Inr f', h') \<and> frame_ok X f' h' \<and>
           unlabeled_mask f' = unlabeled_mask f \<and>
           samples_weights f' = samples_weights f \<and>
           n_samples f' = n_samples f \<and>
           n_unlabeled f' = n_unlabeled f - int k \<and>
           length (selected_samples f') = length (selected_samples f) + k \<and>
           set (selected_samples f') \<subseteq>
             set (selected_samples f) \<union> {i. i < length X \<and> unlabeled_mask f ! i} \<and>
           length h' = length h"
  using assms
proof (induction k arbitrary: f h)
  case 0
  then show ?case by simp
next
  case (Suc k)
  from loop_body_ok [OF Suc.prems, of self] obtain i where
    i: "i < length X" "unlabeled_mask f ! i" and
    body: "loop_body self X (f, h) =
             Inr (f \<lparr> similarity_scores :=
                         map2 max (similarity_scores f)
                           (map (\<lambda>x. 1 / (1 + metric self x (X ! i)))
                              (masked (unlabeled_mask f) X)),
                      n_unlabeled := n_unlabeled f - 1,
                      selected_samples := selected_samples f @ [i] \<rparr>,
                  array_set h (samples_weights f) i 0)" (is "_ = Inr (?f1, ?h1)")
    by blast
  have ok1: "frame_ok X ?f1 ?h1"
    using frame_ok_step [OF Suc.prems i(1)] .
  from Suc.IH [OF ok1] obtain f' h' where
    r: "loop self X k (?f1, ?h1) = (Inr f', h')" "frame_ok X f' h'"
       "unlabeled_mask f' = unlabeled_mask ?f1" "samples_weights f' = samples_weights ?f1"
       "n_samples f' = n_samples ?f1"
       "n_unlabeled f' = n_unlabeled ?f1 - int k"
       "length (selected_samples f') = length (selected_samples ?f1) + k"
       "set (selected_samples f') \<subseteq>
          set (selected_samples ?f1) \<union> {i. i < length X \<and> unlabeled_mask ?f1 ! i}"
       "length h' = length ?h1"
    by blast
  have "loop self X (Suc k) (f, h) = (Inr f', h')"
    using body r(1) by simp
  moreover have "set (selected_samples f') \<subseteq>
      set (selected_samples f) \<union> {i. i < length X \<and> unlabeled_mask f ! i}"
    using r(8) i by auto
  ultimately show ?case
    using r(2-7,9) by (simp add: length_array_set)
qed

lemma loop_add:
  "loop self X (j + k) fh =
     (case loop self X j fh of
        (Inl e, h) \<Rightarrow> (Inl e, h)
      | (Inr f, h) \<Rightarrow> loop self X k (f, h))"
  by (induction j arbitrary: fh) (auto split: sum.splits)

lemma loop_body_frame:
  "loop_body self X (f, h) = Inr (f', h') \<Longrightarrow>
     samples_weights f' = samples_weights f \<and>
     (n \<le> samples_weights f \<longrightarrow> take n h' = take n h)"
  by (auto simp: loop_body_def Let_def take_array_set split: sum.splits)

lemma loop_frame:
  "n \<le> samples_weights f \<Longrightarrow> take n (snd (loop self X k (f, h))) = take n h"
proof (induction k arbitrary: f h)
  case 0
  then show ?case by simp
next
  case (Suc k)
  show ?case
  proof (cases "loop_body self X (f, h)")
    case (Inl e)
    then show ?thesis by simp
  next
    case (Inr fh')
    obtain f' h' where fh': "fh' = (f', h')" by (cases fh')
    from loop_body_frame [OF Inr [unfolded fh'], of n] Suc.prems
    have "samples_weights f' = samples_weights f" "take n h' = take n h" by auto
    with Suc.IH [of f' h'] Suc.prems Inr fh' show ?thesis by simp
  qed
qed

section \<open>RankedBatchSampler: the start of the call\<close>

lemma length_filter_id_map: "length (filter id (map P xs)) = length (filter P xs)"
  by (simp add: filter_map comp_def)

lemma init_frame_heap: "snd (init_frame self h X w) = h @ [h ! w]"
  by (simp add: init_frame_def array_copy_def Let_def split: sum.splits)

lemma init_frame_Inr:
  assumes "init_frame self h X w = (Inr f0, h1)"
  shows "h1 = h @ [h ! w]" and "frame_ok X f0 h1"
    and "unlabeled_mask f0 = map (\<lambda>v. - 0.5 < v) (h ! w)"
    and "samples_weights f0 = length h"
    and "n_unlabeled f0 = int (count_eligible (h ! w))"
    and "n_samples f0 = length X"
    and "selected_samples f0 = []"
    and "length (h ! w) = length X"
    and "masked (map (\<lambda>v. \<not> - 0.5 < v) (h ! w)) X \<noteq> []"
    and "similarity_scores f0 =
           map (\<lambda>x. 1 / (1 + min_list (map (metric self x)
                                  (masked (map (\<lambda>v. \<not> - 0.5 < v) (h ! w)) X))))
             (masked (map (\<lambda>v. - 0.5 < v) (h ! w)) X)"
proof -
  let ?m = "map (\<lambda>v. - 0.5 < v) (h ! w)"
  from assms have len: "length (h ! w) = length X"
    by (auto simp: init_frame_def array_copy_def Let_def split: if_splits)
  from assms len have ne: "masked ?m X \<noteq> []" "masked (logical_not ?m) X \<noteq> []"
    by (auto simp: init_frame_def array_copy_def Let_def pairwise_distances_argmin_min_def
        split: if_splits)
  from assms len ne have f0: "f0 = \<lparr> n_samples = length X, index = [0..<length X],
      unlabeled_mask = ?m, n_unlabeled = int (length (filter id ?m)),
      samples_weights = length h,
      similarity_scores = map (\<lambda>v. 1 / (1 + v))
        (map (\<lambda>a. min_list (map (metric self a) (masked (logical_not ?m) X))) (masked ?m X)),
      selected_samples = [] \<rparr>" and h1: "h1 = h @ [h ! w]"
    by (auto simp: init_frame_def array_copy_def Let_def pairwise_distances_argmin_min_def
        split: if_splits)
  have ln: "logical_not ?m = map (\<lambda>v. \<not> - 0.5 < v) (h ! w)"
    by (simp add: logical_not_def)
  from ne(1) len have "filter id ?m \<noteq> []"
    using length_masked [of ?m X] by (metis length_map length_0_conv)
  then show "frame_ok X f0 h1"
    using len by (simp add: frame_ok_def f0 h1 length_masked)
  show "h1 = h @ [h ! w]" by (rule h1)
  show "unlabeled_mask f0 = ?m" by (simp add: f0)
  show "samples_weights f0 = length h" by (simp add: f0)
  show "n_unlabeled f0 = int (count_eligible (h ! w))"
    by (simp add: f0 count_eligible_def length_filter_id_map)
  show "n_samples f0 = length X" by (simp add: f0)
  show "selected_samples f0 = []" by (simp add: f0)
  show "length (h ! w) = length X" by (rule len)
  show "masked (map (\<lambda>v. \<not> - 0.5 < v) (h ! w)) X \<noteq> []" using ne(2) ln by simp
  show "similarity_scores f0 =
           map (\<lambda>x. 1 / (1 + min_list (map (metric self x)
                                  (masked (map (\<lambda>v. \<not> - 0.5 < v) (h ! w)) X))))
             (masked (map (\<lambda>v. - 0.5 < v) (h ! w)) X)"
    by (simp add: f0 logical_not_def comp_def)
qed






section \<open>RankedBatchSampler: the caller's weights\<close>

text \<open>
  Claim C9. \<open>select_samples\<close> copies the weight array before the loop and writes only to
  the copy: every array that existed when the call began, the caller's weights among
  them, has the same contents when the call ends, whether it returns or raises.
\<close>

theorem select_samples_leaves_caller_arrays: "take (length h) (snd (select_samples self h X w)) = h"
proof (cases "init_frame self h X w")
  case (Pair r h1)
  have h1: "h1 = h @ [h ! w]" using init_frame_heap [of self h X w] Pair by simp
  show ?thesis
  proof (cases r)
    case (Inl e)
    with Pair h1 show ?thesis by (simp add: select_samples_def)
  next
    case (Inr f0)
    have sw: "length h \<le> samples_weights f0"
      using init_frame_Inr(4) [OF Pair [unfolded Inr]] by simp
    have "take (length h) (snd (loop self X (nat (batch_size self)) (f0, h1))) = take (length h) h1"
      using loop_frame [OF sw] .
    then show ?thesis
      using Pair Inr h1
      by (auto simp: select_samples_def split: prod.splits sum.splits)
  qed
qed

section \<open>RankedBatchSampler: the similarity cache\<close>

lemma max_similarity:
  "0 \<le> a \<Longrightarrow> 0 \<le> b \<Longrightarrow> max (1 / (1 + a)) (1 / (1 + b)) = 1 / (1 + min a (b::real))"
  by (auto simp: max_def min_def field_simps)

lemma nearest_similarity_insert:
  assumes "\<forall>a b. 0 \<le> m a b" and "finite S" and "S \<noteq> {}"
  shows "max (nearest_similarity m S x) (1 / (1 + m x y)) = nearest_similarity m (insert y S) x"
proof -
  have "0 \<le> Min (m x ` S)" using assms by (simp add: Min_ge_iff)
  moreover have "0 \<le> m x y" using assms by simp
  moreover have "Min (m x ` insert y S) = min (m x y) (Min (m x ` S))"
    using assms by (simp add: Min_insert)
  ultimately show ?thesis
    by (simp add: nearest_similarity_def max_similarity min.commute)
qed

lemma loop_similarity:
  assumes nonneg: "\<forall>a b. 0 \<le> metric self a b"
    and "frame_ok X f h" and "finite R" and "R \<noteq> {}"
    and "similarity_scores f =
           map (nearest_similarity (metric self) (R \<union> (\<lambda>i. X ! i) ` set (selected_samples f)))
             (masked (unlabeled_mask f) X)"
  shows "\<exists>f' h'. loop self X k (f, h) = (Inr f', h') \<and>
           length (selected_samples f') = length (selected_samples f) + k \<and>
           similarity_scores f' =
             map (nearest_similarity (metric self)
                    (R \<union> (\<lambda>i. X ! i) ` set (selected_samples f')))
               (masked (unlabeled_mask f) X)"
  using assms(2-)
proof (induction k arbitrary: f h)
  case 0
  then show ?case by simp
next
  case (Suc k)
  let ?S = "R \<union> (\<lambda>i. X ! i) ` set (selected_samples f)"
  let ?U = "masked (unlabeled_mask f) X"
  from loop_body_ok [OF Suc.prems(1), of self] obtain i where
    i: "i < length X" and
    body: "loop_body self X (f, h) =
             Inr (f \<lparr> similarity_scores :=
                         map2 max (similarity_scores f)
                           (map (\<lambda>x. 1 / (1 + metric self x (X ! i))) ?U),
                      n_unlabeled := n_unlabeled f - 1,
                      selected_samples := selected_samples f @ [i] \<rparr>,
                  array_set h (samples_weights f) i 0)" (is "_ = Inr (?f1, ?h1)")
    by blast
  have ok1: "frame_ok X ?f1 ?h1"
    using frame_ok_step [OF Suc.prems(1) i] .
  have S: "finite ?S" "?S \<noteq> {}" using Suc.prems(2,3) by auto
  have "similarity_scores ?f1 =
          map (\<lambda>x. max (nearest_similarity (metric self) ?S x) (1 / (1 + metric self x (X ! i)))) ?U"
    using Suc.prems(4) by (simp add: map2_map_map)
  also have "\<dots> = map (nearest_similarity (metric self) (insert (X ! i) ?S)) ?U"
    using nearest_similarity_insert [OF nonneg S] by simp
  also have "insert (X ! i) ?S = R \<union> (\<lambda>i. X ! i) ` set (selected_samples ?f1)"
    by auto
  finally have sim1: "similarity_scores ?f1 =
      map (nearest_similarity (metric self) (R \<union> (\<lambda>i. X ! i) ` set (selected_samples ?f1)))
        (masked (unlabeled_mask ?f1) X)"
    by simp
  from Suc.IH [OF ok1 Suc.prems(2,3) sim1] body show ?case
    by auto
qed

text \<open>
  Claim C3. For a metric that is never negative, after each number \<open>k\<close> of picks the
  running similarity of every unlabeled row is \<open>1 / (1 + d)\<close> for \<open>d\<close> the least distance
  from the row to the reference points, the rows labeled at the start and the \<open>k\<close> rows
  picked so far: the elementwise maximum of line 80 computes what a recomputation of the
  nearest-reference similarity would. The frame after \<open>k\<close> picks is \<open>loop self X k\<close> of
  the initial frame, and \<open>loop_add\<close> places it inside the longer run.
\<close>

theorem similarity_cache_is_nearest_reference:
  assumes "\<forall>a b. 0 \<le> metric self a b"
    and "init_frame self h X w = (Inr f0, h1)"
  shows "\<exists>f h'. loop self X k (f0, h1) = (Inr f, h') \<and>
           length (selected_samples f) = k \<and>
           similarity_scores f =
             map (nearest_similarity (metric self)
                    (reference_points X (h ! w) (selected_samples f)))
               (masked (map (\<lambda>v. - 0.5 < v) (h ! w)) X)"
proof -
  note init = init_frame_Inr [OF assms(2)]
  let ?L = "masked (map (\<lambda>v. \<not> - 0.5 < v) (h ! w)) X"
  have "similarity_scores f0 =
          map (nearest_similarity (metric self) (set ?L \<union> (\<lambda>i. X ! i) ` set (selected_samples f0)))
            (masked (unlabeled_mask f0) X)"
    using init(9) by (simp add: init(3,7,10) nearest_similarity_def min_list_Min)
  from loop_similarity [OF assms(1) init(2) _ _ this, of k] init(9)
  show ?thesis
    by (simp add: init(3,7) reference_points_def)
qed

section \<open>RankedBatchSampler: the mixing coefficient\<close>

text \<open>
  Claim C4. The coefficient \<open>alpha\<close> computed at the start of iteration \<open>k\<close> (counted from 0)
  is \<open>(u0 - k) / n_samples\<close>, for \<open>u0\<close> the number of weights above \<open>-0.5\<close> at the start,
  and the coefficient of the next iteration is strictly smaller.
\<close>

theorem alpha_schedule:
  assumes "init_frame self h X w = (Inr f0, h1)"
  shows "\<exists>f h' f' h''.
           loop self X k (f0, h1) = (Inr f, h') \<and>
           loop self X (Suc k) (f0, h1) = (Inr f', h'') \<and>
           alpha_of f = (real (count_eligible (h ! w)) - real k) / real (length X) \<and>
           alpha_of f' < alpha_of f"
proof -
  note init = init_frame_Inr [OF assms]
  from loop_ok [OF init(2), of self k] obtain f h' where
    f: "loop self X k (f0, h1) = (Inr f, h')" "n_samples f = n_samples f0"
       "n_unlabeled f = n_unlabeled f0 - int k"
    by blast
  from loop_ok [OF init(2), of self "Suc k"] obtain f' h'' where
    f': "loop self X (Suc k) (f0, h1) = (Inr f', h'')" "n_samples f' = n_samples f0"
       "n_unlabeled f' = n_unlabeled f0 - int (Suc k)"
    by blast
  have pos: "0 < length X"
    using init(2) by (auto simp: frame_ok_def)
  have a: "alpha_of f = (real (count_eligible (h ! w)) - real k) / real (length X)"
    by (simp add: alpha_of_def f init(5,6))
  have "alpha_of f' = (real (count_eligible (h ! w)) - real (Suc k)) / real (length X)"
    by (simp add: alpha_of_def f' init(5,6))
  with a pos have "alpha_of f' < alpha_of f"
    by (simp add: divide_strict_right_mono)
  with f(1) f'(1) a show ?thesis by blast
qed

section \<open>RankedBatchSampler: a batch larger than the eligible set\<close>


section \<open>RankedBatchSampler: scenarios\<close>

lemma euclidean_1d: "euclidean [a] [b] = \<bar>a - b\<bar>"
  by (simp add: euclidean_def)

lemma euclidean_nonneg: "0 \<le> euclidean a b"
  by (auto simp: euclidean_def intro!: sum_list_nonneg)

lemmas ranked_eval =
  select_samples_def init_frame_def array_copy_def array_set_def masked_def logical_not_def
  pairwise_distances_argmin_min_def n_features_def pairwise_distances_to_def argmax_def
  loop_body_def
  scores_of_def alpha_of_def euclidean_1d euclidean_sampler_def Let_def upt_rec

text \<open>
  Claim C1, at a failing input. Rows \<open>0, 1, 0\<close> in one dimension, row 0 labeled, rows 1 and
  2 eligible with weight 0, two picks: the first pick is row 1; its score is then 0, as is
  that of row 2, which coincides with the labeled row; the first maximum is row 1 again.
  The batch is \<open>[1, 1]\<close>, not two distinct indices.
\<close>

theorem selected_row_is_selected_again:
  "select_samples (euclidean_sampler 2) [[- 1, 0, 0]] [[0], [1], [0]] 0 =
     (Inr [1, 1], [[- 1, 0, 0], [- 1, 0, 0]])"
  by (simp add: ranked_eval numeral_2_eq_2)


text \<open>
  Claim C8. Six points \<open>0, 1, 2, 10, 11, 12\<close>, the first three labeled, the others of weight
  one half, one pick, the Euclidean metric: the batch is one index, among 3, 4 and 5 (it
  is 5, the point farthest from the labeled ones).
\<close>

theorem far_cluster_scenario:
  "\<exists>i. fst (select_samples (euclidean_sampler 1) [[- 1, - 1, - 1, 1 / 2, 1 / 2, 1 / 2]]
              [[0], [1], [2], [10], [11], [12]] 0) = Inr [i] \<and>
       i \<in> {3, 4, 5} \<and> i \<notin> {0, 1, 2}"
  by (intro exI [of _ 5]) (simp add: ranked_eval)


lemma init_frame_example:
  "init_frame (euclidean_sampler 2) [[- 1, 0, 0 :: real]] [[0 :: real], [1], [0]] 0 =
     (Inr \<lparr> n_samples = 3, index = [0, 1, 2], unlabeled_mask = [False, True, True],
            n_unlabeled = 2, samples_weights = 1, similarity_scores = [1 / 2, 1],
            selected_samples = [] \<rparr>, [[- 1, 0, 0], [- 1, 0, 0]])"
  by (simp add: ranked_eval)

text \<open>Claim C3 after one pick on the rows \<open>0, 1, 0\<close>.\<close>

theorem similarity_cache_is_nearest_reference_witness:
  "(\<forall>a b. 0 \<le> metric (euclidean_sampler 2) a b) \<and>
   (\<exists>f0 h1. init_frame (euclidean_sampler 2) [[- 1, 0, 0 :: real]] [[0 :: real], [1], [0]] 0 = (Inr f0, h1) \<and>
      (\<exists>f h'. loop (euclidean_sampler 2) [[0 :: real], [1], [0]] 1 (f0, h1) = (Inr f, h') \<and>
         length (selected_samples f) = 1 \<and>
         similarity_scores f =
           map (nearest_similarity (metric (euclidean_sampler 2))
                  (reference_points [[0 :: real], [1], [0]] ([[- 1, 0, 0 :: real]] ! 0) (selected_samples f)))
             (masked (map (\<lambda>v. - 0.5 < v) ([[- 1, 0, 0 :: real]] ! 0)) [[0 :: real], [1], [0]])))"
proof -
  have nn: "\<forall>a b. 0 \<le> metric (euclidean_sampler 2) a b"
    by (simp add: euclidean_sampler_def euclidean_nonneg)
  from similarity_cache_is_nearest_reference [OF nn init_frame_example, of 1] nn
    init_frame_example
  show ?thesis by blast
qed

text \<open>Claim C4 at the second iteration on the rows \<open>0, 1, 0\<close>: two of three rows are
  eligible, so the coefficient is one third.\<close>

theorem alpha_schedule_witness:
  "\<exists>f0 h1. init_frame (euclidean_sampler 2) [[- 1, 0, 0 :: real]] [[0 :: real], [1], [0]] 0 = (Inr f0, h1) \<and>
     (\<exists>f h' f' h''.
        loop (euclidean_sampler 2) [[0 :: real], [1], [0]] 1 (f0, h1) = (Inr f, h') \<and>
        loop (euclidean_sampler 2) [[0 :: real], [1], [0]] (Suc 1) (f0, h1) = (Inr f', h'') \<and>
        alpha_of f = 1 / 3 \<and> alpha_of f' < alpha_of f)"
proof -
  have "real (count_eligible ([[- 1, 0, 0 :: real]] ! 0)) = 2" by (simp add: count_eligible_def)
  with alpha_schedule [OF init_frame_example, of 1] init_frame_example
  show ?thesis by (simp del: loop.simps)
qed

section \<open>ScoredQuerySampler: the stored scores\<close>

text \<open>
  Claim C10. Whenever \<open>score_samples(X)\<close> returns, \<open>select_samples\<close> stores its result in
  \<open>sample_scores_\<close> before looking at the strategy: the attribute holds the raw scores
  after the call for every strategy string; for a string that is none of the three
  strategies the call raises \<open>ValueError\<close> and the object is the old one with the attribute
  set; for \<open>squared_choice\<close> the generator receives the squared scores while the
  attribute holds the unsquared ones.
\<close>

theorem scores_stored_before_dispatch:
  assumes "score_samples X = Inr sc"
  shows "sample_scores_attr (snd (scored_select_samples score_samples argsort choice self X)) =
           Some sc \<and>
         (strategy self \<notin> {''top'', ''linear_choice'', ''squared_choice''} \<longrightarrow>
            scored_select_samples score_samples argsort choice self X =
              (Inl ValueError, self \<lparr> sample_scores_attr := Some sc \<rparr>)) \<and>
         (strategy self = ''squared_choice'' \<longrightarrow>
            fst (scored_select_samples score_samples argsort choice self X) =
              fst (choice (random_state self) [0..<length X] (batch_size self)
                     (map (\<lambda>s. s / sum_list (map (\<lambda>s. s\<^sup>2) sc)) (map (\<lambda>s. s\<^sup>2) sc))))"
  using assms
  by (simp add: scored_select_samples_def Let_def split: prod.splits)

text \<open>Claim C10 at an unknown strategy: the call raises and the attribute, unset before,
  holds the scores.\<close>

theorem scores_stored_before_dispatch_witness:
  "row_sum_score [[1, 2], [3, 0]] = Inr [3, 3] \<and>
   strategy (scored_example ''best'' 1) \<notin> {''top'', ''linear_choice'', ''squared_choice''} \<and>
   sample_scores_attr (scored_example ''best'' 1) = None \<and>
   scored_select_samples row_sum_score stable_argsort first_choice (scored_example ''best'' 1)
       [[1, 2], [3, 0]] =
     (Inl ValueError, (scored_example ''best'' 1) \<lparr> sample_scores_attr := Some [3, 3] \<rparr>)"
proof -
  have a: "row_sum_score [[1, 2], [3, 0]] = Inr [3, 3]" by (simp add: row_sum_score_def)
  have b: "strategy (scored_example ''best'' 1) \<notin> {''top'', ''linear_choice'', ''squared_choice''}"
    by (simp add: scored_example_def)
  have c: "sample_scores_attr (scored_example ''best'' 1) = None" by (simp add: scored_example_def)
  from scores_stored_before_dispatch
         [where score_samples = row_sum_score and argsort = stable_argsort
            and choice = first_choice and self = "scored_example ''best'' 1", OF a] a b c
  show ?thesis by blast
qed

section \<open>ScoredQuerySampler: the strategy top\<close>

lemma length_of_positions:
  assumes "distinct L" and "set L = {0..<n}"
  shows "length L = n"
  using assms distinct_card [of L] by simp

text \<open>
  Claim C5, as amended. Let \<open>argsort\<close> return, for the scores at hand, the positions
  without repetition in ascending order of score, in whatever order among equal scores.
  With the strategy \<open>top\<close> and a batch size from 1 to the number of scores, the call
  returns that many distinct positions of the score vector, and no position left out has
  a larger score than a position returned. Which of several equal scores at the boundary
  are returned is not determined.
\<close>

theorem top_selects_largest_scores:
  assumes "score_samples X = Inr sc" and "strategy self = ''top''"
    and "0 < batch_size self" and "batch_size self \<le> int (length sc)"
    and "distinct (argsort sc)" and "set (argsort sc) = {0..<length sc}"
    and "sorted (map (\<lambda>i. sc ! i) (argsort sc))"
  shows "\<exists>idx. fst (scored_select_samples score_samples argsort choice self X) = Inr idx \<and>
           length idx = nat (batch_size self) \<and> distinct idx \<and>
           (\<forall>i \<in> set idx. i < length sc \<and>
              (\<forall>j < length sc. j \<notin> set idx \<longrightarrow> sc ! j \<le> sc ! i))"
proof -
  let ?L = "argsort sc"
  let ?k = "length sc - nat (batch_size self)"
  let ?idx = "drop ?k ?L"
  have lenL: "length ?L = length sc"
    using length_of_positions [OF assms(5,6)] .
  have "nat (int (length sc) + - batch_size self) = ?k"
    using assms(3,4) by arith
  then have sl: "slice_from (- batch_size self) ?L = ?idx"
    using assms(3) by (simp add: slice_from_def lenL)
  have res: "fst (scored_select_samples score_samples argsort choice self X) = Inr ?idx"
    using assms(1,2) sl by (simp add: scored_select_samples_def Let_def)
  have len: "length ?idx = nat (batch_size self)"
    using assms(3,4) by (simp add: lenL)
  have dist: "distinct ?idx" using assms(5) by simp
  have "sorted (map (\<lambda>i. sc ! i) (take ?k ?L) @ map (\<lambda>i. sc ! i) ?idx)"
    using assms(7) by (simp flip: map_append)
  then have ord: "\<forall>j \<in> set (take ?k ?L). \<forall>i \<in> set ?idx. sc ! j \<le> sc ! i"
    unfolding sorted_append by simp
  have "\<forall>i \<in> set ?idx. i < length sc \<and>
              (\<forall>j < length sc. j \<notin> set ?idx \<longrightarrow> sc ! j \<le> sc ! i)"
  proof (intro ballI conjI allI impI)
    fix i assume i: "i \<in> set ?idx"
    then have "i \<in> set ?L" by (rule in_set_dropD)
    then show "i < length sc" by (simp add: assms(6))
    fix j assume j: "j < length sc" "j \<notin> set ?idx"
    have split: "set ?L = set (take ?k ?L) \<union> set ?idx"
      using set_append [of "take ?k ?L" ?idx] by simp
    from j(1) have "j \<in> set ?L" by (simp add: assms(6))
    with split j(2) have "j \<in> set (take ?k ?L)" by blast
    with ord i show "sc ! j \<le> sc ! i" by blast
  qed
  with res len dist show ?thesis by blast
qed

text \<open>
  Claim C5, as stated, fails. The order in which positions of equal scores come back is
  \<open>np.argsort\<close>'s choice, and for one ordering it may return (equal scores by position)
  the call takes position 1 of two equal scores, not the lower position 0. A batch size
  of 0 returns every position (the slice \<open>[-0:]\<close> is the whole array), and a batch size
  of 3 on two scores returns two positions; neither depends on the order of ties.
\<close>

theorem top_is_not_lowest_index_first:
  "distinct (stable_argsort [1, 1]) \<and> set (stable_argsort [1, 1]) = {0..<length [1, 1 :: real]} \<and>
   sorted (map (\<lambda>i. [1, 1 :: real] ! i) (stable_argsort [1, 1])) \<and>
   fst (scored_select_samples (constant_score [1, 1]) stable_argsort first_choice
          (scored_example ''top'' 1) [[0], [0]]) = Inr [1] \<and>
   fst (scored_select_samples (constant_score [1, 2]) stable_argsort first_choice
          (scored_example ''top'' 0) [[0], [0]]) = Inr [0, 1] \<and>
   fst (scored_select_samples (constant_score [1, 2]) stable_argsort first_choice
          (scored_example ''top'' 3) [[0], [0]]) = Inr [0, 1]"
  by (auto simp: scored_select_samples_def scored_example_def constant_score_def
      slice_from_def stable_argsort_def upt_rec numeral_2_eq_2)

text \<open>The amended claim C5 at the scores 3, 1, 2 and a batch of two.\<close>

theorem top_selects_largest_scores_witness:
  "constant_score [3, 1, 2] [[0], [0], [0]] = Inr [3, 1, 2] \<and>
   strategy (scored_example ''top'' 2) = ''top'' \<and>
   0 < batch_size (scored_example ''top'' 2) \<and>
   batch_size (scored_example ''top'' 2) \<le> int (length [3, 1, 2 :: real]) \<and>
   distinct (stable_argsort [3, 1, 2]) \<and>
   set (stable_argsort [3, 1, 2]) = {0..<length [3, 1, 2 :: real]} \<and>
   sorted (map (\<lambda>i. [3, 1, 2 :: real] ! i) (stable_argsort [3, 1, 2])) \<and>
   (\<exists>idx. fst (scored_select_samples (constant_score [3, 1, 2]) stable_argsort first_choice
                 (scored_example ''top'' 2) [[0], [0], [0]]) = Inr idx \<and>
      length idx = nat (batch_size (scored_example ''top'' 2)) \<and> distinct idx \<and>
      (\<forall>i \<in> set idx. i < length [3, 1, 2 :: real] \<and>
         (\<forall>j < length [3, 1, 2 :: real]. j \<notin> set idx \<longrightarrow> [3, 1, 2 :: real] ! j \<le> [3, 1, 2] ! i)))"
proof -
  have a: "constant_score [3, 1, 2] [[0], [0], [0]] = Inr [3, 1, 2]"
    by (simp add: constant_score_def)
  have b: "strategy (scored_example ''top'' 2) = ''top''" by (simp add: scored_example_def)
  have c: "0 < batch_size (scored_example ''top'' 2)" by (simp add: scored_example_def)
  have d: "batch_size (scored_example ''top'' 2) \<le> int (length [3, 1, 2 :: real])"
    by (simp add: scored_example_def)
  have so: "stable_argsort [3, 1, 2] = [1, 2, 0]"
    by (simp add: stable_argsort_def upt_rec numeral_3_eq_3)
  have e: "distinct (stable_argsort [3, 1, 2])" unfolding so by simp
  have f: "set (stable_argsort [3, 1, 2]) = {0..<length [3, 1, 2 :: real]}"
    unfolding so by (auto simp: numeral_3_eq_3)
  have g: "sorted (map (\<lambda>i. [3, 1, 2 :: real] ! i) (stable_argsort [3, 1, 2]))"
    unfolding so by simp
  from top_selects_largest_scores
         [where score_samples = "constant_score [3, 1, 2]" and argsort = stable_argsort
            and choice = first_choice, OF a b c d e f g]
       a b c d e f g
  show ?thesis by blast
qed

section \<open>ChainQuerySampler\<close>

lemma fancy_index_subset: "fancy_index xs idx = Inr ys \<Longrightarrow> set ys \<subseteq> set xs"
proof -
  assume a: "fancy_index xs idx = Inr ys"
  then have rng: "\<forall>i \<in> set idx. - int (length xs) \<le> i \<and> i < int (length xs)"
    by (simp add: fancy_index_def list_all_iff split: if_splits)
  from a have ys: "ys = map (\<lambda>i. xs ! nat (if i < 0 then int (length xs) + i else i)) idx"
    by (simp add: fancy_index_def split: if_splits)
  show "set ys \<subseteq> set xs"
  proof
    fix y assume "y \<in> set ys"
    then obtain i where i: "i \<in> set idx"
      and y: "y = xs ! nat (if i < 0 then int (length xs) + i else i)"
      using ys by auto
    from rng i have "nat (if i < 0 then int (length xs) + i else i) < length xs" by auto
    with y show "y \<in> set xs" by simp
  qed
qed

lemma chain_loop_Cons_Inr:
  assumes "chain_loop (s # ss) X selected = (Inr sel, ss')"
  obtains s1 predict Xs new s2 selected' rest' where
    "call_fit s X None = (Inr (), s1)" and "predict_method s1 = Some predict" and
    "fancy_index X selected = Inr Xs" and "call_bound predict s1 Xs = (Inr new, s2)" and
    "fancy_index selected new = Inr selected'" and
    "chain_loop ss X selected' = (Inr sel, rest')" and "ss' = s2 # rest'"
  using assms by (auto split: prod.splits sum.splits option.splits)

lemma chain_loop_subset:
  "chain_loop ss X selected = (Inr sel, ss') \<Longrightarrow> set sel \<subseteq> set selected"
proof (induction ss arbitrary: selected ss')
  case Nil
  then show ?case by simp
next
  case (Cons s ss)
  from Cons.prems obtain selected' new rest' where
    "fancy_index selected new = Inr selected'" "chain_loop ss X selected' = (Inr sel, rest')"
    by (rule chain_loop_Cons_Inr)
  with Cons.IH fancy_index_subset show ?case by blast
qed

lemma chain_loop_trace:
  "chain_loop ss X selected = (Inr sel, ss') \<Longrightarrow>
     \<exists>sels. length sels = Suc (length ss) \<and> sels ! 0 = selected \<and> sels ! length ss = sel \<and>
       length ss' = length ss \<and>
       (\<forall>k < length ss. \<exists>s1 predict Xk new.
          call_fit (ss ! k) X None = (Inr (), s1) \<and> predict_method s1 = Some predict \<and>
          fancy_index X (sels ! k) = Inr Xk \<and>
          call_bound predict s1 Xk = (Inr new, ss' ! k) \<and>
          fancy_index (sels ! k) new = Inr (sels ! Suc k))"
proof (induction ss arbitrary: selected ss')
  case Nil
  then show ?case by (intro exI [of _ "[selected]"]) simp
next
  case (Cons s ss)
  from Cons.prems obtain s1 predict Xs new s2 selected' rest' where
    fit: "call_fit s X None = (Inr (), s1)" and pm: "predict_method s1 = Some predict" and
    xs: "fancy_index X selected = Inr Xs" and
    pr: "call_bound predict s1 Xs = (Inr new, s2)" and
    fi: "fancy_index selected new = Inr selected'" and
    rec: "chain_loop ss X selected' = (Inr sel, rest')" and
    ss': "ss' = s2 # rest'"
    by (rule chain_loop_Cons_Inr)
  from Cons.IH [OF rec] obtain sels where
    ih: "length sels = Suc (length ss)" "sels ! 0 = selected'" "sels ! length ss = sel"
      "length rest' = length ss"
      "\<forall>k < length ss. \<exists>s1 predict Xk new.
          call_fit (ss ! k) X None = (Inr (), s1) \<and> predict_method s1 = Some predict \<and>
          fancy_index X (sels ! k) = Inr Xk \<and>
          call_bound predict s1 Xk = (Inr new, rest' ! k) \<and>
          fancy_index (sels ! k) new = Inr (sels ! Suc k)"
    by blast
  let ?sels = "selected # sels"
  have step: "\<exists>s1 predict Xk new.
          call_fit ((s # ss) ! k) X None = (Inr (), s1) \<and> predict_method s1 = Some predict \<and>
          fancy_index X (?sels ! k) = Inr Xk \<and>
          call_bound predict s1 Xk = (Inr new, ss' ! k) \<and>
          fancy_index (?sels ! k) new = Inr (?sels ! Suc k)"
    if k: "k < length (s # ss)" for k
  proof (cases k)
    case 0
    with fit pm xs pr fi ss' ih(2) show ?thesis by simp
  next
    case (Suc j)
    with k have "j < length ss" by simp
    with ih(5) Suc ss' show ?thesis by simp
  qed
  show ?case
    using ih(1,3,4) ss' step by (intro exI [of _ ?sels]) simp
qed

text \<open>
  Claim C6, as amended. When \<open>select_samples\<close> of a chain returns, the chain has a first
  sampler, whose \<open>select_samples(X)\<close> returned an index array, and the call went through a
  sequence of selections that starts with that array and ends with the result: each
  later sampler in turn was fitted on the whole of \<open>X\<close> (without labels), had a
  \<open>predict\<close>, was asked to predict on the rows of \<open>X\<close> at the current selection, which
  left it in its final state, and the next selection is the current one indexed by that
  prediction. Every returned index is one of the first sampler's array.
\<close>

theorem chain_result_within_first_selection:
  assumes "chain_select_samples self X = (Inr sel, self')"
  shows "\<exists>first rest sel0 s0 rest' sels.
           sampler_list self = first # rest \<and>
           call_select_samples first X = (Inr sel0, s0) \<and>
           sampler_list self' = s0 # rest' \<and> length rest' = length rest \<and>
           length sels = Suc (length rest) \<and> sels ! 0 = sel0 \<and> sels ! length rest = sel \<and>
           (\<forall>k < length rest. \<exists>s1 predict Xk new.
              call_fit (rest ! k) X None = (Inr (), s1) \<and> predict_method s1 = Some predict \<and>
              fancy_index X (sels ! k) = Inr Xk \<and>
              call_bound predict s1 Xk = (Inr new, rest' ! k) \<and>
              fancy_index (sels ! k) new = Inr (sels ! Suc k)) \<and>
           set sel \<subseteq> set sel0"
proof -
  from assms obtain first rest sel0 s0 rest' where
    sl: "sampler_list self = first # rest" and
    c0: "call_select_samples first X = (Inr sel0, s0)" and
    lp: "chain_loop rest X sel0 = (Inr sel, rest')" and
    s': "self' = self \<lparr> sampler_list := s0 # rest' \<rparr>"
    by (auto simp: chain_select_samples_def split: list.splits prod.splits sum.splits)
  from chain_loop_trace [OF lp] obtain sels where
    "length sels = Suc (length rest)" "sels ! 0 = sel0" "sels ! length rest = sel"
    "length rest' = length rest"
    "\<forall>k < length rest. \<exists>s1 predict Xk new.
        call_fit (rest ! k) X None = (Inr (), s1) \<and> predict_method s1 = Some predict \<and>
        fancy_index X (sels ! k) = Inr Xk \<and>
        call_bound predict s1 Xk = (Inr new, rest' ! k) \<and>
        fancy_index (sels ! k) new = Inr (sels ! Suc k)"
    by blast
  with sl c0 s' chain_loop_subset [OF lp] show ?thesis
    by (intro exI [of _ first] exI [of _ rest] exI [of _ sel0] exI [of _ s0]
        exI [of _ rest'] exI [of _ sels]) simp
qed

lemma example_chain_run:
  "chain_select_samples example_chain [[0], [1], [2], [3]] =
     (Inr [0], \<lparr> sampler_list = [recording_sampler [2, 0, 3] [],
                                   (recording_sampler [] [1]) \<lparr> obj := [[0], [1], [2], [3]] \<rparr>] \<rparr>)"
  by (simp add: chain_select_samples_def example_chain_def recording_sampler_def
      call_select_samples_def call_fit_def call_bound_def fancy_index_def)

text \<open>
  Claim C6, as stated, fails: the second sampler of the chain is fitted on all four rows
  of \<open>X\<close>, not on the three rows the first sampler selected.
\<close>

theorem chain_fits_on_all_rows:
  "fst (chain_select_samples example_chain [[0], [1], [2], [3]]) = Inr [0] \<and>
   map obj (sampler_list (snd (chain_select_samples example_chain [[0], [1], [2], [3]]))) =
     [[], [[0], [1], [2], [3]]] \<and>
   fancy_index [[0], [1], [2], [3 :: real]] [2, 0, 3] = Inr [[2], [0], [3]]"
  by (simp add: example_chain_run recording_sampler_def fancy_index_def)

text \<open>The amended claim C6 on the chain of two recording samplers: the first selects rows
  2, 0 and 3, the second predicts position 1 of them, and the result is row 0.\<close>

theorem chain_result_within_first_selection_witness:
  "\<exists>sel self'. chain_select_samples example_chain [[0], [1], [2], [3]] = (Inr sel, self') \<and>
     sel = [0] \<and>
     (\<exists>first rest sel0 s0 rest' sels.
        sampler_list example_chain = first # rest \<and>
        call_select_samples first [[0], [1], [2], [3]] = (Inr sel0, s0) \<and>
        sampler_list self' = s0 # rest' \<and> length rest' = length rest \<and>
        length sels = Suc (length rest) \<and> sels ! 0 = sel0 \<and> sels ! length rest = sel \<and>
        (\<forall>k < length rest. \<exists>s1 predict Xk new.
           call_fit (rest ! k) [[0], [1], [2], [3]] None = (Inr (), s1) \<and>
           predict_method s1 = Some predict \<and>
           fancy_index [[0], [1], [2], [3]] (sels ! k) = Inr Xk \<and>
           call_bound predict s1 Xk = (Inr new, rest' ! k) \<and>
           fancy_index (sels ! k) new = Inr (sels ! Suc k)) \<and>
        set sel \<subseteq> set sel0)"
  using chain_result_within_first_selection [OF example_chain_run] example_chain_run
  by blast

section \<open>AdaptiveQuerySampler\<close>

text \<open>
  Claim C7. After a \<open>fit\<close> that returns, the recorded size is the number of training
  rows and both sub-samplers have been fitted on the training data; \<open>select_samples(X)\<close>
  then gives exactly the outcome of the exploration sampler's \<open>select_samples(X)\<close> when
  the size is at most 50, leaving the exploitation sampler untouched, and exactly that
  of the exploitation sampler otherwise, leaving the exploration sampler untouched.
\<close>

theorem adaptive_routes_by_train_size:
  assumes "adaptive_fit self X_train y_train = (Inr (), self')"
  shows "X_train_size self' = Some (length X_train) \<and>
         call_fit (exploration_sampler self) X_train (Some y_train) =
           (Inr (), exploration_sampler self') \<and>
         call_fit (exploitation_sampler self) X_train (Some y_train) =
           (Inr (), exploitation_sampler self') \<and>
         (if length X_train \<le> 50
          then fst (adaptive_select_samples self' X) =
                 fst (call_select_samples (exploration_sampler self') X) \<and>
               exploitation_sampler (snd (adaptive_select_samples self' X)) =
                 exploitation_sampler self'
          else fst (adaptive_select_samples self' X) =
                 fst (call_select_samples (exploitation_sampler self') X) \<and>
               exploration_sampler (snd (adaptive_select_samples self' X)) =
                 exploration_sampler self')"
proof -
  from assms obtain s t where
    e1: "call_fit (exploration_sampler self) X_train (Some y_train) = (Inr (), s)" and
    e2: "call_fit (exploitation_sampler self) X_train (Some y_train) = (Inr (), t)" and
    s': "self' = self \<lparr> X_train_size := Some (length X_train),
                         exploration_sampler := s, exploitation_sampler := t \<rparr>"
    by (auto simp: adaptive_fit_def Let_def split: prod.splits sum.splits)
  show ?thesis
    by (simp add: e1 e2 s' adaptive_select_samples_def split: prod.splits)
qed

lemma example_adaptive_fit:
  "adaptive_fit example_adaptive [[0], [1]] [0, 1] =
     (Inr (), \<lparr> exploration_sampler = (recording_sampler [0] []) \<lparr> obj := [[0], [1]] \<rparr>,
                exploitation_sampler = (recording_sampler [1] []) \<lparr> obj := [[0], [1]] \<rparr>,
                X_train_size = Some 2 \<rparr>)"
  by (simp add: adaptive_fit_def example_adaptive_def recording_sampler_def call_fit_def)

text \<open>Claim C7 with two training rows: the exploration sampler answers.\<close>

theorem adaptive_routes_by_train_size_witness:
  "\<exists>self'. adaptive_fit example_adaptive [[0], [1]] [0, 1] = (Inr (), self') \<and>
     X_train_size self' = Some 2 \<and>
     fst (adaptive_select_samples self' [[5], [6], [7]]) = Inr [0] \<and>
     fst (adaptive_select_samples self' [[5], [6], [7]]) =
       fst (call_select_samples (exploration_sampler self') [[5], [6], [7]]) \<and>
     exploitation_sampler (snd (adaptive_select_samples self' [[5], [6], [7]])) =
       exploitation_sampler self'"
proof -
  have "fst (call_select_samples
               ((recording_sampler [0] []) \<lparr> obj := [[0], [1]] \<rparr>) [[5], [6], [7]]) = Inr [0]"
    by (simp add: call_select_samples_def recording_sampler_def)
  with adaptive_routes_by_train_size [OF example_adaptive_fit, of "[[5], [6], [7]]"]
    example_adaptive_fit
  show ?thesis by simp
qed

end
